theory Spec2Isabelle
  imports Main "HOL-Library.Word"
begin

section \<open>JavaScript string operations used by the parser\<close>

text \<open>
  Strings are character lists.  The operations below are the ones
  \<^verbatim>\<open>blocks-markdown-parser.ts\<close> calls on strings; every pattern the parser
  searches for is ASCII, so working on bytes instead of UTF-16 code units
  makes no difference to where a match is found.
\<close>

definition EOL_MD :: string where
  "EOL_MD = ''\<newline>''"

text \<open>The apostrophe and the backquote, which the templates of the source contain.\<close>

definition apos :: string where
  "apos = [CHR 0x27]"

definition backquote :: string where
  "backquote = [CHR 0x60]"

text \<open>\<^verbatim>\<open>c.repeat(n)\<close> for a one-character string, and \<^verbatim>\<open>s.repeat(n)\<close>.\<close>

definition repeat :: "string \<Rightarrow> nat \<Rightarrow> string" where
  "repeat s n = concat (replicate n s)"

text \<open>\<^verbatim>\<open>s.split(sep)\<close> for a one-character separator: never the empty list.\<close>

fun split :: "char \<Rightarrow> string \<Rightarrow> string list" where
  "split sep [] = [[]]"
| "split sep (c # s) =
     (if c = sep then [] # split sep s
      else (case split sep s of
              [] \<Rightarrow> [[c]]
            | x # xs \<Rightarrow> (c # x) # xs))"

text \<open>\<^verbatim>\<open>parts.join(sep)\<close>.\<close>

fun join :: "string \<Rightarrow> string list \<Rightarrow> string" where
  "join sep [] = []"
| "join sep [x] = x"
| "join sep (x # y # ys) = x @ sep @ join sep (y # ys)"

text \<open>
  \<^verbatim>\<open>s.toLowerCase()\<close>.  On a string of ASCII characters it turns the letters
  \<^verbatim>\<open>A\<close> to \<^verbatim>\<open>Z\<close> into \<^verbatim>\<open>a\<close> to \<^verbatim>\<open>z\<close> and leaves every other character.
  On a string with other characters it goes by the case tables of Unicode
  (which may also change the length); the tables are no part of this program,
  and there the result is taken from the function \<^verbatim>\<open>beyond_ASCII\<close> that the
  model is given.
\<close>

definition toLowerCase_char :: "char \<Rightarrow> char" where
  "toLowerCase_char c =
     (let n = (of_char c :: nat) in if 65 \<le> n \<and> n \<le> 90 then char_of (n + 32) else c)"

definition toLowerCase :: "(string \<Rightarrow> string) \<Rightarrow> string \<Rightarrow> string" where
  "toLowerCase beyond_ASCII s =
     (if list_all (\<lambda>c. (of_char c :: nat) < 128) s then map toLowerCase_char s
      else beyond_ASCII s)"

text \<open>
  A JavaScript number, as far as the parser can tell numbers apart: all it
  does with one is to test \<^verbatim>\<open>!n\<close> and to print \<^verbatim>\<open>${n}\<close>.  \<^verbatim>\<open>NaN\<close> is
  falsy and prints as \<^verbatim>\<open>NaN\<close>.  \<^verbatim>\<open>Uint32 n\<close> is an integer from 0 to
  \<^verbatim>\<open>2^32 - 1\<close>; it prints as its decimal digits, and zero (either zero of
  JavaScript) is falsy.  \<^verbatim>\<open>Other s\<close> is any other number (negative, larger, with
  a fraction, infinite), none of which is falsy, given by the text \<^verbatim>\<open>s\<close> that
  JavaScript prints for it, such as \<^verbatim>\<open>-5\<close>, \<^verbatim>\<open>1.5\<close> or \<^verbatim>\<open>1e+21\<close>.
\<close>

datatype number = NaN | Uint32 "32 word" | Other string

fun digits :: "nat \<Rightarrow> string" where
  "digits n =
     (if 10 \<le> n then digits (n div 10) @ [''0123456789'' ! (n mod 10)]
      else [''0123456789'' ! n])"

declare digits.simps [simp del]

text \<open>Template interpolation of a number, \<^verbatim>\<open>${n}\<close>.\<close>

fun number_text :: "number \<Rightarrow> string" where
  "number_text NaN = ''NaN''"
| "number_text (Uint32 n) = digits (unat n)"
| "number_text (Other s) = s"

text \<open>
  \<^verbatim>\<open>s.replace(pattern, replacement)\<close> with a string pattern: only the first
  occurrence is replaced, and the replacement is a template in which
  \<^verbatim>\<open>$$\<close> stands for a dollar sign, \<^verbatim>\<open>$&\<close> for the matched text,
  \<^verbatim>\<open>$`\<close> for the text before the match and \<^verbatim>\<open>$'\<close> for the text after it
  (ECMAScript GetSubstitution; with a string pattern there are no capture
  groups, so \<^verbatim>\<open>$1\<close> and \<^verbatim>\<open>$<name>\<close> stay as they are).
\<close>

definition startsWith :: "string \<Rightarrow> string \<Rightarrow> bool" where
  "startsWith s p = (take (length p) s = p)"

fun indexOf :: "string \<Rightarrow> string \<Rightarrow> nat option" where
  "indexOf [] p = (if p = [] then Some 0 else None)"
| "indexOf (c # s) p =
     (if startsWith (c # s) p then Some 0 else map_option Suc (indexOf s p))"

fun getSubstitution :: "string \<Rightarrow> string \<Rightarrow> string \<Rightarrow> string \<Rightarrow> string" where
  "getSubstitution matched preceding following [] = []"
| "getSubstitution matched preceding following [c] = [c]"
| "getSubstitution matched preceding following (c # d # r) =
     (if c = CHR ''$'' then
        (if d = CHR ''$'' then CHR ''$'' # getSubstitution matched preceding following r
         else if d = CHR ''&'' then matched @ getSubstitution matched preceding following r
         else if d = CHR 0x60 then preceding @ getSubstitution matched preceding following r
         else if d = CHR 0x27 then following @ getSubstitution matched preceding following r
         else c # getSubstitution matched preceding following (d # r))
      else c # getSubstitution matched preceding following (d # r))"

definition replace :: "string \<Rightarrow> string \<Rightarrow> string \<Rightarrow> string" where
  "replace s pattern replacement =
     (case indexOf s pattern of
        None \<Rightarrow> s
      | Some i \<Rightarrow>
          (let preceding = take i s; following = drop (i + length pattern) s
           in preceding @ getSubstitution pattern preceding following replacement @ following))"

section \<open>Rich text\<close>

text \<open>
  Modelled from the spec: the declarations of the types of the blocks and of
  the rich text (package \<^verbatim>\<open>@benlorantfy/notion-types\<close>) are not among the
  sources.  The datatypes of this section and the next follow section 3 of
  the specification and hold the fields that the source reads.

  \<^verbatim>\<open>annotate\<close> walks \<^verbatim>\<open>Object.entries(annotations)\<close>, so what it sees of an
  annotations object is the list of its entries in the order of its keys.  A
  value is a boolean (the five style flags) or a colour name.
\<close>

datatype modifier = bold | italic | strikethrough | underline | code | color

datatype annotation_value = Flag bool | ColorName string

type_synonym entries = "(modifier \<times> annotation_value) list"

text \<open>JavaScript truthiness of an entry's value; a string is truthy unless empty.\<close>

fun truthy :: "annotation_value \<Rightarrow> bool" where
  "truthy (Flag b) = b"
| "truthy (ColorName c) = (c \<noteq> [])"

text \<open>The value as a template prints it.\<close>

fun value_text :: "annotation_value \<Rightarrow> string" where
  "value_text (Flag b) = (if b then ''true'' else ''false'')"
| "value_text (ColorName c) = c"

fun annotateModifier :: "modifier \<Rightarrow> string \<Rightarrow> annotation_value \<Rightarrow> string" where
  "annotateModifier bold originalContent v = ''**'' @ originalContent @ ''**''"
| "annotateModifier italic originalContent v = ''_'' @ originalContent @ ''_''"
| "annotateModifier strikethrough originalContent v = ''~~'' @ originalContent @ ''~~''"
| "annotateModifier underline originalContent v = ''<u>'' @ originalContent @ ''</u>''"
| "annotateModifier code originalContent v = backquote @ originalContent @ backquote"
| "annotateModifier color originalContent v =
     (if v \<noteq> ColorName ''default''
      then ''<span notion-color='' @ apos @ value_text v @ apos @ ''>'' @ originalContent @ ''</span>''
      else originalContent)"

definition annotate :: "entries \<Rightarrow> string \<Rightarrow> string" where
  "annotate annotations originalContent =
     foldl (\<lambda>annotatedContent (m, isOnOrColor).
              if truthy isOnOrColor then annotateModifier m annotatedContent isOnOrColor
              else annotatedContent)
           originalContent annotations"

text \<open>
  Modelled from the spec: the declaration of the \<^verbatim>\<open>Annotations\<close> type is not
  among the sources.  It is a fixed record of six keys in the declaration
  order bold, italic, strikethrough, underline, code (booleans) and color (a
  colour name, \<^verbatim>\<open>default\<close> meaning no colour); \<^verbatim>\<open>Object_entries\<close> lists the
  entries of such a record in that order.
\<close>

record Annotations =
  a_bold :: bool
  a_italic :: bool
  a_strikethrough :: bool
  a_underline :: bool
  a_code :: bool
  a_color :: string

definition Object_entries :: "Annotations \<Rightarrow> entries" where
  "Object_entries a =
     [(bold, Flag (a_bold a)), (italic, Flag (a_italic a)),
      (strikethrough, Flag (a_strikethrough a)), (underline, Flag (a_underline a)),
      (code, Flag (a_code a)), (color, ColorName (a_color a))]"

text \<open>
  A link of a text span is a URL or an object with a \<^verbatim>\<open>url\<close> field
  (\<^verbatim>\<open>annotateLink\<close> reads both); \<^verbatim>\<open>None\<close> is \<^verbatim>\<open>null\<close>.
\<close>

datatype link = Url string | UrlObject string

record text_obj =
  content :: string
  link :: "link option"

datatype mention_type = user | page | database | date

text \<open>
  A rich-text item with the fields the parser reads: the annotations of every
  item, the \<^verbatim>\<open>text\<close> of a text item, the \<^verbatim>\<open>plain_text\<close> of a mention and
  the expression of an equation.
\<close>

datatype RichText =
    RichTextText entries text_obj
  | RichTextMention entries mention_type string
  | RichTextEquation entries string

text \<open>\<^verbatim>\<open>text.link\<close> as a condition: the empty string is falsy, an object truthy.\<close>

fun link_truthy :: "link \<Rightarrow> bool" where
  "link_truthy (Url u) = (u \<noteq> [])"
| "link_truthy (UrlObject u) = True"

text \<open>
  \<^verbatim>\<open>text.link.url ? text.link.url : text.link\<close>, printed by the template: a
  string has no \<^verbatim>\<open>url\<close> property, and an object prints as
  \<^verbatim>\<open>[object Object]\<close>.
\<close>

fun link_target :: "link \<Rightarrow> string" where
  "link_target (Url u) = u"
| "link_target (UrlObject u) = (if u \<noteq> [] then u else ''[object Object]'')"

text \<open>
  \<^verbatim>\<open>annotateLink\<close> reads only the link of the \<^verbatim>\<open>text\<close> it is given, and
  \<^verbatim>\<open>parseText\<close> calls it only when that link is truthy (so not \<^verbatim>\<open>null\<close>).
\<close>

definition annotateLink :: "link \<Rightarrow> string \<Rightarrow> string" where
  "annotateLink l annotatedContent = ''['' @ annotatedContent @ ''](''  @ link_target l @ '')''"

definition parseText :: "entries \<Rightarrow> text_obj \<Rightarrow> string" where
  "parseText annotations t =
     (let content = annotate annotations (content t)
      in (case link t of
            None \<Rightarrow> content
          | Some l \<Rightarrow> if link_truthy l then annotateLink l content else content))"

definition parseMention :: "entries \<Rightarrow> mention_type \<Rightarrow> string \<Rightarrow> string" where
  "parseMention annotations mt plain_text =
     (case mt of
        user \<Rightarrow> annotate annotations plain_text
      | page \<Rightarrow> annotate annotations plain_text
      | database \<Rightarrow> annotate annotations plain_text
      | date \<Rightarrow> annotate annotations plain_text)"

definition parseEquation :: "entries \<Rightarrow> string \<Rightarrow> string" where
  "parseEquation annotations expression = annotate annotations (''$'' @ expression @ ''$'')"

definition parseRichTexts :: "RichText list \<Rightarrow> string" where
  "parseRichTexts richTexts =
     foldl (\<lambda>parsedContent richText.
              (case richText of
                 RichTextText a t \<Rightarrow> parsedContent @ parseText a t
               | RichTextMention a mt p \<Rightarrow> parsedContent @ parseMention a mt p
               | RichTextEquation a e \<Rightarrow> parsedContent @ parseEquation a e))
           [] richTexts"

section \<open>Files, icons and blocks\<close>

text \<open>
  Modelled from the spec: the type of a file value is not among the sources.
  A file value is external or hosted, each with its URL and an optional
  caption (\<^verbatim>\<open>None\<close>: the field is missing).
\<close>

datatype File =
    ExternalFileWithCaption string "RichText list option"
  | FileWithCaption string "RichText list option"

record fileContent =
  caption :: string
  url :: string

definition parseFile :: "File \<Rightarrow> fileContent" where
  "parseFile f =
     (let u = (case f of ExternalFileWithCaption eu c \<Rightarrow> eu | FileWithCaption fu c \<Rightarrow> fu);
          cap = (case f of ExternalFileWithCaption eu c \<Rightarrow> c | FileWithCaption fu c \<Rightarrow> c)
      in \<lparr>caption = (case cap of Some c \<Rightarrow> parseRichTexts c | None \<Rightarrow> u), url = u\<rparr>)"

datatype CalloutIcon =
    CalloutIconEmoji string
  | CalloutIconExternal string
  | CalloutIconFile

text \<open>
  Modelled from the spec: the types of the blocks are not among the sources.
  A block: \<^verbatim>\<open>has_children\<close>, the \<^verbatim>\<open>children\<close> found under the key of its type
  (\<^verbatim>\<open>None\<close> when that field is missing) and what else the parser reads under
  that key.  Every block holds an object under the key of its type, as the
  blocks of the Notion API do.  The constructor stands for the test of \<^verbatim>\<open>parse\<close> that the type
  of the block passes (\<^verbatim>\<open>has_type\<close> below lists the types of each).

  The language tag of a code block is \<^verbatim>\<open>None\<close> when the block has none.

  \<^verbatim>\<open>HeadingBlock count rich_text\<close> is a block of any type that starts with
  \<^verbatim>\<open>heading_\<close>.  \<^verbatim>\<open>parse\<close> reads the heading level off the type as
  \<^verbatim>\<open>Number(type.split('_')[1])\<close> and \<^verbatim>\<open>parseHeading\<close> uses it only in
  \<^verbatim>\<open>'#'.repeat(headingLevel)\<close>; \<^verbatim>\<open>count\<close> is the number of repetitions that
  \<^verbatim>\<open>repeat\<close> makes for that number (4 for \<^verbatim>\<open>heading_4\<close>, 0 when the text is not
  a number), and \<^verbatim>\<open>None\<close> when \<^verbatim>\<open>repeat\<close> refuses the number with a
  \<^verbatim>\<open>RangeError\<close> (negative, infinite, or more than a string can hold).

  \<^verbatim>\<open>OtherBlock\<close> is a block of a type that passes none of the tests of
  \<^verbatim>\<open>parse\<close>, such as \<^verbatim>\<open>column_list\<close> or \<^verbatim>\<open>table\<close>.
\<close>

datatype Payload =
    UnsupportedBlock
  | ParagraphBlock "RichText list"
  | CodeBlock "string option" "RichText list"
  | QuoteBlock "RichText list"
  | CalloutBlock CalloutIcon "RichText list"
  | HeadingBlock "nat option" "RichText list"
  | BulletedListItemBlock "RichText list"
  | NumberedListItemBlock "RichText list"
  | ToDoBlock bool "RichText list"
  | ToggleBlock "RichText list"
  | ImageBlock File
  | EmbedBlock string "RichText list option"
  | AudioBlock File
  | VideoBlock File
  | FileBlock File
  | PDFBlock File
  | DividerBlock
  | OtherBlock

datatype Block = Block bool "Block list option" Payload

section \<open>The parser and its options\<close>

text \<open>
  What the image-size lookup resolves with (a field is \<^verbatim>\<open>None\<close> when missing);
  the lookup itself resolves (\<^verbatim>\<open>Inr\<close>) or rejects with a reason (\<^verbatim>\<open>Inl\<close>).
\<close>

record imageSize =
  width :: "number option"
  height :: "number option"

type_synonym getImageSize_fn = "string \<Rightarrow> string + imageSize"

text \<open>
  The options a caller passes.  Every key may be missing (\<^verbatim>\<open>None\<close>), and a key
  that is there may hold \<^verbatim>\<open>undefined\<close> (\<^verbatim>\<open>Some None\<close>) or a value.
\<close>

record PartialOptions =
  given_imageAsFigure :: "bool option option"
  given_addImageSizeToAltText :: "bool option option"
  given_getImageSize :: "getImageSize_fn option option"
  given_emptyParagraphToNonBreakingSpace :: "bool option option"

text \<open>
  \<^verbatim>\<open>parserOptions\<close>, a field being \<^verbatim>\<open>None\<close> when it holds \<^verbatim>\<open>undefined\<close>: the
  two defaults with the given options spread over them.  The spread copies
  every key that is there, also one that holds \<^verbatim>\<open>undefined\<close>; the other two
  fields have no default.  A flag is tested for its truthiness, which is
  being \<^verbatim>\<open>Some True\<close>.
\<close>

record parserOptions =
  imageAsFigure :: "bool option"
  addImageSizeToAltText :: "bool option"
  getImageSize :: "getImageSize_fn option"
  emptyParagraphToNonBreakingSpace :: "bool option"

definition constructor :: "PartialOptions option \<Rightarrow> parserOptions" where
  "constructor options =
     (case options of
        None \<Rightarrow>
          \<lparr>imageAsFigure = Some True, addImageSizeToAltText = None, getImageSize = None,
           emptyParagraphToNonBreakingSpace = Some False\<rparr>
      | Some given \<Rightarrow>
          \<lparr>imageAsFigure = (case given_imageAsFigure given of None \<Rightarrow> Some True | Some v \<Rightarrow> v),
           addImageSizeToAltText =
             (case given_addImageSizeToAltText given of None \<Rightarrow> None | Some v \<Rightarrow> v),
           getImageSize = (case given_getImageSize given of None \<Rightarrow> None | Some v \<Rightarrow> v),
           emptyParagraphToNonBreakingSpace =
             (case given_emptyParagraphToNonBreakingSpace given of
                None \<Rightarrow> Some False
              | Some v \<Rightarrow> v)\<rparr>)"

text \<open>
  The static field \<^verbatim>\<open>instance\<close> is the state (\<^verbatim>\<open>None\<close> before the first call);
  \<^verbatim>\<open>getInstance\<close> returns the instance and the new state.
\<close>

definition getInstance ::
  "PartialOptions option \<Rightarrow> parserOptions option \<Rightarrow> parserOptions \<times> parserOptions option" where
  "getInstance options inst =
     (case inst of
        None \<Rightarrow> (constructor options, Some (constructor options))
      | Some this \<Rightarrow> (this, Some this))"

text \<open>
  What a render can throw: an \<^verbatim>\<open>Error\<close> with its message (the two that
  \<^verbatim>\<open>parseImageBlock\<close> throws are named below as the specification names them),
  the reason a rejected lookup gives, the \<^verbatim>\<open>TypeError\<close> of reading a property
  of \<^verbatim>\<open>undefined\<close>, and the \<^verbatim>\<open>RangeError\<close> of \<^verbatim>\<open>repeat\<close>.
\<close>

datatype error = Error string | Rejected string | TypeError | RangeError

definition ConfigurationError :: error where
  "ConfigurationError =
     Error ''parserOptions.getImageSize is required if parserOptions.addImageSizeToAltText is true''"

definition ValidationError :: error where
  "ValidationError = Error ''Could not find width/height for image''"

text \<open>
  A result comes with the URLs passed to \<^verbatim>\<open>getImageSize\<close> on the way, in the
  order of the calls; every call is awaited before the parser goes on.
\<close>

type_synonym 'a traced = "(error + 'a) \<times> string list"

text \<open>
  What the parser takes from outside: \<^verbatim>\<open>processExternalVideoUrl\<close>, imported
  from \<^verbatim>\<open>external-video.util\<close>, which is not among the sources, and what
  \<^verbatim>\<open>toLowerCase\<close> gives beyond ASCII.
\<close>

record externals =
  processExternalVideoUrl :: "string \<Rightarrow> bool \<times> string"
  toLowerCase_beyond_ASCII :: "string \<Rightarrow> string"

section \<open>Block renderers\<close>

text \<open>
  Every renderer takes the fields it reads of its block (and \<^verbatim>\<open>this\<close>, the
  options of the parser, when it reads them).
\<close>

definition parseParagraph :: "parserOptions \<Rightarrow> RichText list \<Rightarrow> string" where
  "parseParagraph this rich_text =
     (let t = (if emptyParagraphToNonBreakingSpace this = Some True \<and> length rich_text = 0
               then ''&nbsp;'' else parseRichTexts rich_text)
      in EOL_MD @ t @ EOL_MD)"

text \<open>
  \<^verbatim>\<open>parseCodeBlock\<close> calls \<^verbatim>\<open>toLowerCase\<close> on the language tag and reads
  \<^verbatim>\<open>rich_text[0].text.content\<close>: a \<^verbatim>\<open>TypeError\<close> when the tag is missing, when
  there is no first run, and when the first run has no \<^verbatim>\<open>text\<close> (a mention or
  an equation).
\<close>

definition parseCodeBlock :: "externals \<Rightarrow> string option \<Rightarrow> RichText list \<Rightarrow> error + string" where
  "parseCodeBlock pev language rich_text =
     (case language of
        None \<Rightarrow> Inl TypeError
      | Some tag \<Rightarrow>
          (case rich_text of
             RichTextText a first # others \<Rightarrow>
               Inr (backquote @ backquote @ backquote
                    @ toLowerCase (toLowerCase_beyond_ASCII pev) tag @ EOL_MD
                    @ content first @ EOL_MD
                    @ backquote @ backquote @ backquote @ EOL_MD)
           | _ \<Rightarrow> Inl TypeError))"

definition parseQuoteBlock :: "RichText list \<Rightarrow> string" where
  "parseQuoteBlock rich_text =
     EOL_MD @ ''> '' @ join (EOL_MD @ ''> '') (split CHR 0x0A (parseRichTexts rich_text)) @ EOL_MD"

definition getCalloutIcon :: "CalloutIcon \<Rightarrow> string" where
  "getCalloutIcon icon =
     (case icon of
        CalloutIconEmoji emoji \<Rightarrow> ''<span notion-callout-emoji>'' @ emoji @ ''</span>''
      | CalloutIconExternal u \<Rightarrow>
          ''<img notion-callout-external src='' @ apos @ u @ apos @ '' alt='' @ apos
          @ ''notion-callout-external-link'' @ apos @ ''/>''
      | CalloutIconFile \<Rightarrow> ''notion-callout-file'')"

definition parseCalloutBlock :: "CalloutIcon \<Rightarrow> RichText list \<Rightarrow> string" where
  "parseCalloutBlock icon rich_text =
     (let callout = ''<div notion-callout>'' @ EOL_MD
                    @ ''  {{icon}}'' @ EOL_MD
                    @ ''  <span notion-callout-text>'' @ EOL_MD
                    @ ''    '' @ parseRichTexts rich_text @ EOL_MD
                    @ ''  </span>'' @ EOL_MD
                    @ ''</div>''
      in EOL_MD @ replace callout ''{{icon}}'' (getCalloutIcon icon) @ EOL_MD)"

text \<open>
  \<^verbatim>\<open>headingLevel\<close> is here the number of repetitions that \<^verbatim>\<open>repeat\<close> makes for
  the heading level, \<^verbatim>\<open>None\<close> when \<^verbatim>\<open>repeat\<close> throws.
\<close>

definition parseHeading :: "RichText list \<Rightarrow> nat option \<Rightarrow> error + string" where
  "parseHeading rich_text headingLevel =
     (case headingLevel of
        None \<Rightarrow> Inl RangeError
      | Some n \<Rightarrow> Inr (EOL_MD @ repeat ''#'' n @ '' '' @ parseRichTexts rich_text @ EOL_MD))"

definition parseBulletedListItems :: "RichText list \<Rightarrow> string" where
  "parseBulletedListItems rich_text =
     ''* '' @ join (EOL_MD @ ''    '') (split CHR 0x0A (parseRichTexts rich_text)) @ EOL_MD"

definition parseNumberedListItems :: "RichText list \<Rightarrow> string" where
  "parseNumberedListItems rich_text =
     ''1. '' @ join (EOL_MD @ ''    '') (split CHR 0x0A (parseRichTexts rich_text)) @ EOL_MD"

definition parseTodoBlock :: "bool \<Rightarrow> RichText list \<Rightarrow> string" where
  "parseTodoBlock checked rich_text =
     ''- ['' @ (if checked then ''x'' else '' '') @ ''] '' @ parseRichTexts rich_text @ EOL_MD"

definition parseToggleBlock :: "RichText list \<Rightarrow> string" where
  "parseToggleBlock rich_text =
     ''<details><summary>'' @ parseRichTexts rich_text @ ''</summary>{{childBlock}}</details>''"

text \<open>
  \<^verbatim>\<open>!n\<close> for a field that holds a number: true when the field is missing and
  when the number is zero or \<^verbatim>\<open>NaN\<close>.
\<close>

fun number_falsy :: "number option \<Rightarrow> bool" where
  "number_falsy None = True"
| "number_falsy (Some NaN) = True"
| "number_falsy (Some (Uint32 n)) = (n = 0)"
| "number_falsy (Some (Other s)) = False"

definition parseImageBlock :: "parserOptions \<Rightarrow> File \<Rightarrow> string traced" where
  "parseImageBlock this imageFile =
     (let fc = parseFile imageFile in
      if imageAsFigure this = Some True then
        (Inr (EOL_MD @ ''<figure notion-figure>'' @ EOL_MD
              @ ''  <img src='' @ apos @ url fc @ apos @ '' alt='' @ apos @ caption fc @ apos @ ''>'' @ EOL_MD
              @ ''  <figcaption notion-figcaption>'' @ caption fc @ ''</figcaption>'' @ EOL_MD
              @ ''</figure>'' @ EOL_MD @ EOL_MD), [])
      else if addImageSizeToAltText this = Some True then
        (case getImageSize this of
           None \<Rightarrow> (Inl ConfigurationError, [])
         | Some lookup \<Rightarrow>
             (case lookup (url fc) of
                Inl reason \<Rightarrow> (Inl (Rejected reason), [url fc])
              | Inr result \<Rightarrow>
                  if number_falsy (width result) \<or> number_falsy (height result)
                  then (Inl ValidationError, [url fc])
                  else (Inr (''!['' @ caption fc @ ''|'' @ number_text (the (width result)) @ ''x''
                             @ number_text (the (height result)) @ ''](''  @ url fc @ '')'' @ EOL_MD),
                        [url fc])))
      else (Inr (''!['' @ caption fc @ ''](''  @ url fc @ '')'' @ EOL_MD), []))"

definition parseAudioBlock :: "File \<Rightarrow> string" where
  "parseAudioBlock audio =
     (let fc = parseFile audio in ''!['' @ caption fc @ ''](''  @ url fc @ '')'')"

definition parseVideoBlock :: "externals \<Rightarrow> File \<Rightarrow> string" where
  "parseVideoBlock pev video =
     (let fc = parseFile video;
          (processed, iframeOrUrl) = processExternalVideoUrl pev (url fc)
      in if processed then EOL_MD @ iframeOrUrl @ EOL_MD
         else ''To be supported: '' @ url fc @ '' with '' @ caption fc @ EOL_MD)"

definition parseFileBlock :: "File \<Rightarrow> string" where
  "parseFileBlock f =
     (let fc = parseFile f in ''To be supported: '' @ url fc @ '' with '' @ caption fc @ EOL_MD)"

definition parsePdfBlock :: "File \<Rightarrow> string" where
  "parsePdfBlock pdf =
     (let fc = parseFile pdf in
      EOL_MD @ ''<figure>'' @ EOL_MD
      @ ''  <object data='' @ apos @ url fc @ apos @ '' type='' @ apos @ ''application/pdf'' @ apos
      @ ''></object>'' @ EOL_MD
      @ ''  <figcaption>'' @ caption fc @ ''</figcaption>'' @ EOL_MD
      @ ''</figure>'' @ EOL_MD @ EOL_MD)"

definition parseEmbedBlock :: "string \<Rightarrow> RichText list option \<Rightarrow> string" where
  "parseEmbedBlock embed_url embed_caption =
     (let embedded = ''<iframe src='' @ apos @ embed_url @ apos @ ''></iframe>'' in
      case embed_caption of
        Some c \<Rightarrow>
          EOL_MD @ ''<figure>'' @ EOL_MD
          @ ''  '' @ embedded @ EOL_MD
          @ ''  <figcaption>'' @ parseRichTexts c @ ''</figcaption>'' @ EOL_MD
          @ ''</figure>'' @ EOL_MD
      | None \<Rightarrow> embedded @ EOL_MD)"

section \<open>The walker\<close>

text \<open>
  The chain of tests on the type of a block in the body of the loop of
  \<^verbatim>\<open>parse\<close>: at most one of them holds, and it appends the text returned here
  to \<^verbatim>\<open>markdown\<close>.  For a type that passes none of them nothing is appended.
\<close>

definition dispatch ::
  "externals \<Rightarrow> parserOptions \<Rightarrow> string \<Rightarrow> Payload \<Rightarrow> string \<Rightarrow> string traced" where
  "dispatch pev this prefix payload childBlockString =
     (case payload of
        UnsupportedBlock \<Rightarrow>
          (Inr (prefix @ ''NotionAPI Unsupported'' @ repeat EOL_MD 2 @ childBlockString), [])
      | ParagraphBlock rich_text \<Rightarrow>
          (Inr (prefix @ parseParagraph this rich_text @ childBlockString), [])
      | CodeBlock language rich_text \<Rightarrow>
          (case parseCodeBlock pev language rich_text of
             Inl e \<Rightarrow> (Inl e, [])
           | Inr s \<Rightarrow> (Inr (prefix @ s @ childBlockString), []))
      | QuoteBlock rich_text \<Rightarrow>
          (Inr (prefix @ parseQuoteBlock rich_text @ childBlockString), [])
      | CalloutBlock icon rich_text \<Rightarrow>
          (Inr (prefix @ parseCalloutBlock icon rich_text @ childBlockString), [])
      | HeadingBlock headingLevel rich_text \<Rightarrow>
          (case parseHeading rich_text headingLevel of
             Inl e \<Rightarrow> (Inl e, [])
           | Inr s \<Rightarrow> (Inr (prefix @ s @ childBlockString), []))
      | BulletedListItemBlock rich_text \<Rightarrow>
          (Inr (prefix @ parseBulletedListItems rich_text @ childBlockString), [])
      | NumberedListItemBlock rich_text \<Rightarrow>
          (Inr (prefix @ parseNumberedListItems rich_text @ childBlockString), [])
      | ToDoBlock checked rich_text \<Rightarrow>
          (Inr (prefix @ parseTodoBlock checked rich_text @ childBlockString), [])
      | ToggleBlock rich_text \<Rightarrow>
          (Inr (prefix @ replace (parseToggleBlock rich_text) ''{{childBlock}}'' childBlockString), [])
      | ImageBlock imageFile \<Rightarrow>
          (case parseImageBlock this imageFile of
             (Inl e, calls) \<Rightarrow> (Inl e, calls)
           | (Inr s, calls) \<Rightarrow> (Inr (prefix @ s @ childBlockString), calls))
      | EmbedBlock embed_url embed_caption \<Rightarrow>
          (Inr (prefix @ parseEmbedBlock embed_url embed_caption @ childBlockString), [])
      | AudioBlock audio \<Rightarrow>
          (Inr (prefix @ parseAudioBlock audio @ childBlockString), [])
      | VideoBlock video \<Rightarrow>
          (Inr (prefix @ parseVideoBlock pev video @ childBlockString), [])
      | FileBlock f \<Rightarrow>
          (Inr (prefix @ parseFileBlock f @ childBlockString), [])
      | PDFBlock pdf \<Rightarrow>
          (Inr (prefix @ parsePdfBlock pdf @ childBlockString), [])
      | DividerBlock \<Rightarrow>
          (Inr (prefix @ EOL_MD @ ''---'' @ EOL_MD @ childBlockString), [])
      | OtherBlock \<Rightarrow> (Inr [], []))"

text \<open>
  \<^verbatim>\<open>parse\<close> is the method; \<^verbatim>\<open>parse_loop\<close> is its \<^verbatim>\<open>for\<close> loop over the blocks
  left, with \<^verbatim>\<open>markdown\<close> as accumulated so far; \<^verbatim>\<open>parse_childBlock\<close> is the body
  of the loop for one block and returns what the body appends to \<^verbatim>\<open>markdown\<close>.
  An error thrown anywhere ends the whole call with that error.
\<close>

fun parse ::
    "externals \<Rightarrow> parserOptions \<Rightarrow> Block list \<Rightarrow> nat \<Rightarrow> string traced"
  and parse_loop ::
    "externals \<Rightarrow> parserOptions \<Rightarrow> nat \<Rightarrow> Block list \<Rightarrow> string \<Rightarrow> string traced"
  and parse_childBlock ::
    "externals \<Rightarrow> parserOptions \<Rightarrow> nat \<Rightarrow> Block \<Rightarrow> string traced"
where
  "parse pev this blocks depth =
     (case parse_loop pev this depth blocks [] of
        (Inl e, calls) \<Rightarrow> (Inl e, calls)
      | (Inr markdown, calls) \<Rightarrow> (Inr (markdown @ EOL_MD), calls))"
| "parse_loop pev this depth [] markdown = (Inr markdown, [])"
| "parse_loop pev this depth (childBlock # rest) markdown =
     (case parse_childBlock pev this depth childBlock of
        (Inl e, calls) \<Rightarrow> (Inl e, calls)
      | (Inr appended, calls) \<Rightarrow>
          (case parse_loop pev this depth rest (markdown @ appended) of
             (r, calls') \<Rightarrow> (r, calls @ calls')))"
| "parse_childBlock pev this depth (Block has_children children payload) =
     (let prefix = repeat '' '' depth in
      case (if has_children
            then (case children of
                    Some cs \<Rightarrow> parse pev this cs (depth + 2)
                  | None \<Rightarrow> (Inr [], []))
            else (Inr [], [])) of
        (Inl e, calls) \<Rightarrow> (Inl e, calls)
      | (Inr childBlockString, calls) \<Rightarrow>
          (case dispatch pev this prefix payload childBlockString of
             (r, calls') \<Rightarrow> (r, calls @ calls')))"

section \<open>The types of the blocks\<close>







section \<open>Orders on the blocks of a document\<close>

text \<open>
  The walker descends into the children of a block that has \<^verbatim>\<open>has_children\<close>
  set and a \<^verbatim>\<open>children\<close> field, and into no others.
\<close>

text \<open>The URL an image block passes to the lookup; no URL for any other block.\<close>

definition image_url :: "Payload \<Rightarrow> string list" where
  "image_url payload = (case payload of ImageBlock imageFile \<Rightarrow> [url (parseFile imageFile)] | _ \<Rightarrow> [])"

text \<open>
  The image URLs of a document in document order (a block before the blocks
  below it), and in the order that puts the blocks below a block before the
  block itself.
\<close>

fun document_order :: "Block list \<Rightarrow> string list"
  and document_order_block :: "Block \<Rightarrow> string list"
where
  "document_order [] = []"
| "document_order (b # bs) = document_order_block b @ document_order bs"
| "document_order_block (Block True (Some cs) payload) = image_url payload @ document_order cs"
| "document_order_block (Block has_children children payload) = image_url payload"

fun children_first :: "Block list \<Rightarrow> string list"
  and children_first_block :: "Block \<Rightarrow> string list"
where
  "children_first [] = []"
| "children_first (b # bs) = children_first_block b @ children_first bs"
| "children_first_block (Block True (Some cs) payload) = children_first cs @ image_url payload"
| "children_first_block (Block has_children children payload) = image_url payload"

text \<open>No image block of the document has an image among the blocks below it.\<close>

fun images_are_leaves :: "Block list \<Rightarrow> bool"
  and images_are_leaves_block :: "Block \<Rightarrow> bool"
where
  "images_are_leaves [] = True"
| "images_are_leaves (b # bs) = (images_are_leaves_block b \<and> images_are_leaves bs)"
| "images_are_leaves_block (Block True (Some cs) payload) =
     (images_are_leaves cs \<and> (image_url payload = [] \<or> children_first cs = []))"
| "images_are_leaves_block (Block has_children children payload) = True"

text \<open>Every block the walker comes to, at any depth.\<close>

fun walked :: "Block list \<Rightarrow> Block list"
  and walked_block :: "Block \<Rightarrow> Block list"
where
  "walked [] = []"
| "walked (b # bs) = walked_block b @ walked bs"
| "walked_block (Block True (Some cs) payload) = walked cs @ [Block True (Some cs) payload]"
| "walked_block (Block has_children children payload) = [Block has_children children payload]"

text \<open>
  The error that the renderer of a block throws, if it throws one (it does
  not depend on the prefix or on the text of the children), and the errors of
  the blocks the walker comes to, in the order in which it renders them.
\<close>

definition block_error :: "externals \<Rightarrow> parserOptions \<Rightarrow> Block \<Rightarrow> error option" where
  "block_error pev this b =
     (case b of Block has_children children payload \<Rightarrow>
        (case fst (dispatch pev this [] payload []) of
           Inl e \<Rightarrow> Some e
         | Inr s \<Rightarrow> None))"

definition walk_errors :: "externals \<Rightarrow> parserOptions \<Rightarrow> Block list \<Rightarrow> error list" where
  "walk_errors pev this blocks = List.map_filter (block_error pev this) (walked blocks)"

section \<open>Values for examples\<close>

text \<open>
  A rich-text run of plain text; an outside world whose resolver makes a
  player of no video URL; lookups that resolve for every URL to 10 by 20, to
  0 by 20 and to \<^verbatim>\<open>NaN\<close> by 20; and the options that put the size of an image
  into its alt text, with the lookup given.
\<close>

definition plain :: "string \<Rightarrow> RichText" where
  "plain s = RichTextText [] \<lparr>content = s, link = None\<rparr>"

definition no_video :: externals where
  "no_video =
     \<lparr>processExternalVideoUrl = (\<lambda>u. (False, u)), toLowerCase_beyond_ASCII = (\<lambda>s. s)\<rparr>"

definition size_10x20 :: getImageSize_fn where
  "size_10x20 u = Inr \<lparr>width = Some (Uint32 10), height = Some (Uint32 20)\<rparr>"

definition size_0x20 :: getImageSize_fn where
  "size_0x20 u = Inr \<lparr>width = Some (Uint32 0), height = Some (Uint32 20)\<rparr>"

definition size_NaNx20 :: getImageSize_fn where
  "size_NaNx20 u = Inr \<lparr>width = Some NaN, height = Some (Uint32 20)\<rparr>"

definition size_in_alt :: "getImageSize_fn option \<Rightarrow> parserOptions" where
  "size_in_alt lookup =
     \<lparr>imageAsFigure = Some False, addImageSizeToAltText = Some True, getImageSize = lookup,
      emptyParagraphToNonBreakingSpace = Some False\<rparr>"

section \<open>Annotation composition\<close>

lemma annotate_Nil: "annotate [] x = x"
  by (simp add: annotate_def)

lemma annotate_Cons:
  "annotate ((m, v) # es) x = annotate es (if truthy v then annotateModifier m x v else x)"
  by (simp add: annotate_def)

text \<open>
  The entry that comes last in the object wraps the result of all the entries
  before it: the order of the wrappers is the order of the keys.
\<close>

lemma annotate_snoc:
  "annotate (es @ [(m, v)]) x =
     (if truthy v then annotateModifier m (annotate es x) v else annotate es x)"
  by (simp add: annotate_def)

lemma annotate_example_object:
  "annotate [(bold, Flag True), (italic, Flag True)] ''x'' = ''_**x**_''"
  by (simp add: annotate_Cons annotate_Nil)

lemma annotate_follows_key_order:
  "annotate [(italic, Flag True), (bold, Flag True)] ''x'' = ''**_x_**''"
  by (simp add: annotate_Cons annotate_Nil)

text \<open>
  C1, as the code has it.  For an annotations record, whose keys come in the
  declared order, \<^verbatim>\<open>annotate\<close> wraps the content for bold, then italic, then
  strikethrough, then underline, then code, each wrapper around the result so
  far, and last of all in a \<^verbatim>\<open>span\<close> that carries the colour in the attribute
  \<^verbatim>\<open>notion-color\<close>, unless the colour is \<^verbatim>\<open>default\<close> (or empty).
\<close>

theorem annotate_declared_order:
  "annotate (Object_entries a) x =
     (let b = (if a_bold a then ''**'' @ x @ ''**'' else x);
          i = (if a_italic a then ''_'' @ b @ ''_'' else b);
          s = (if a_strikethrough a then ''~~'' @ i @ ''~~'' else i);
          u = (if a_underline a then ''<u>'' @ s @ ''</u>'' else s);
          c = (if a_code a then backquote @ u @ backquote else u)
      in if a_color a = [] \<or> a_color a = ''default'' then c
         else ''<span notion-color='' @ apos @ a_color a @ apos @ ''>'' @ c @ ''</span>'')"
  by (simp add: Object_entries_def annotate_Cons annotate_Nil Let_def)

theorem annotate_declared_order_witness:
  "annotate (Object_entries \<lparr>a_bold = True, a_italic = True, a_strikethrough = False,
      a_underline = False, a_code = False, a_color = ''default''\<rparr>) ''x'' = ''_**x**_''"
  using annotate_declared_order [of "\<lparr>a_bold = True, a_italic = True, a_strikethrough = False,
      a_underline = False, a_code = False, a_color = ''default''\<rparr>" "''x''"]
  by (simp add: Let_def)

text \<open>
  C1 as the specification words it names the attribute \<^verbatim>\<open>data-color\<close>; for the
  colour red that is not what \<^verbatim>\<open>annotate\<close> returns.
\<close>

theorem annotate_color_counterexample:
  "annotate (Object_entries \<lparr>a_bold = False, a_italic = False, a_strikethrough = False,
      a_underline = False, a_code = False, a_color = ''red''\<rparr>) ''x''
   \<noteq> ''<span data-color='' @ apos @ ''red'' @ apos @ ''>x</span>''"
  by (simp add: Object_entries_def annotate_Cons annotate_Nil apos_def)

section \<open>Text spans and files\<close>

text \<open>
  C7, as the code has it.  A text span whose link has a non-empty URL renders
  as the annotated content in a markdown link to that URL, the same for a
  link given as the URL and for one given as an object with the URL; a span
  with no link, which is one whose link is \<^verbatim>\<open>null\<close> or the empty URL, renders as
  the annotated content alone.
\<close>

theorem parseText_link:
  "(u \<noteq> [] \<longrightarrow>
      parseText a \<lparr>content = c, link = Some (Url u)\<rparr> = ''['' @ annotate a c @ ''](''  @ u @ '')''
      \<and> parseText a \<lparr>content = c, link = Some (UrlObject u)\<rparr>
          = ''['' @ annotate a c @ ''](''  @ u @ '')'')
   \<and> parseText a \<lparr>content = c, link = None\<rparr> = annotate a c
   \<and> parseText a \<lparr>content = c, link = Some (Url [])\<rparr> = annotate a c"
  by (simp add: parseText_def annotateLink_def)

theorem parseText_link_witness:
  "parseText [(bold, Flag True)] \<lparr>content = ''x'', link = Some (Url ''u'')\<rparr> = ''[**x**](u)''
   \<and> parseText [(bold, Flag True)] \<lparr>content = ''x'', link = Some (UrlObject ''u'')\<rparr> = ''[**x**](u)''
   \<and> parseText [(bold, Flag True)] \<lparr>content = ''x'', link = None\<rparr> = ''**x**''
   \<and> parseText [(bold, Flag True)] \<lparr>content = ''x'', link = Some (Url [])\<rparr> = ''**x**''"
proof -
  have h: "''u'' \<noteq> []" by simp
  show ?thesis
    using h parseText_link [of "''u''" "[(bold, Flag True)]" "''x''"]
    by (simp add: annotate_Cons annotate_Nil)
qed

text \<open>
  C7 as the specification words it, at the empty URL: the two forms of a link
  differ, and neither gives a link to that URL.  The URL itself counts as no
  link, and the object is printed in place of its URL.
\<close>

theorem parseText_empty_url_counterexample:
  "parseText [] \<lparr>content = ''x'', link = Some (Url [])\<rparr> \<noteq> ''[x]()''
   \<and> parseText [] \<lparr>content = ''x'', link = Some (UrlObject [])\<rparr> \<noteq> ''[x]()''"
  by (simp add: parseText_def annotateLink_def annotate_Nil)

lemma parseText_empty_url:
  "parseText [] \<lparr>content = ''x'', link = Some (Url [])\<rparr> = ''x''"
  "parseText [] \<lparr>content = ''x'', link = Some (UrlObject [])\<rparr> = ''[x]([object Object])''"
  by (simp_all add: parseText_def annotateLink_def annotate_Nil)

text \<open>
  C8.  \<^verbatim>\<open>parseFile\<close> takes the URL of an external file and of a hosted file from
  the field of its variant; the caption is the rendered rich text of the
  caption when the file has one, and the URL when it has none.
\<close>

theorem parseFile_resolves:
  "url (parseFile (ExternalFileWithCaption u c)) = u
   \<and> url (parseFile (FileWithCaption u c)) = u
   \<and> caption (parseFile (ExternalFileWithCaption u (Some rich_text))) = parseRichTexts rich_text
   \<and> caption (parseFile (FileWithCaption u (Some rich_text))) = parseRichTexts rich_text
   \<and> caption (parseFile (ExternalFileWithCaption u None)) = u
   \<and> caption (parseFile (FileWithCaption u None)) = u"
  by (simp add: parseFile_def)

theorem parseFile_resolves_witness:
  "caption (parseFile (ExternalFileWithCaption ''u''
       (Some [RichTextText [] \<lparr>content = ''cap'', link = None\<rparr>]))) = ''cap''
   \<and> caption (parseFile (FileWithCaption ''u'' (Some []))) = []
   \<and> caption (parseFile (FileWithCaption ''u'' None)) = ''u''
   \<and> url (parseFile (FileWithCaption ''u'' None)) = ''u''"
  using parseFile_resolves [of "''u''" "None" "[RichTextText [] \<lparr>content = ''cap'', link = None\<rparr>]"]
    parseFile_resolves [of "''u''" "None" "[]"]
  by (simp add: parseRichTexts_def parseText_def annotate_Nil)

section \<open>The singleton accessor\<close>

text \<open>
  C10.  The first call of \<^verbatim>\<open>getInstance\<close> constructs the parser from its
  options spread over the defaults (\<^verbatim>\<open>imageAsFigure\<close> true,
  \<^verbatim>\<open>emptyParagraphToNonBreakingSpace\<close> false) and stores it; every later call
  returns the stored parser whatever options it is given, so after
  \<^verbatim>\<open>getInstance(o1)\<close> the call \<^verbatim>\<open>getInstance(o2)\<close> returns the parser of \<^verbatim>\<open>o1\<close>.
  In the spread a key that is given wins over the default, also when it is
  given as \<^verbatim>\<open>undefined\<close>, and a default stays only when its key is missing.
\<close>

theorem getInstance_singleton:
  "getInstance o1 None = (constructor o1, Some (constructor o1))
   \<and> getInstance o2 (snd (getInstance o1 None)) = (constructor o1, Some (constructor o1))
   \<and> getInstance o2 (Some this) = (this, Some this)
   \<and> imageAsFigure (constructor None) = Some True
   \<and> emptyParagraphToNonBreakingSpace (constructor None) = Some False
   \<and> addImageSizeToAltText (constructor None) = None
   \<and> getImageSize (constructor None) = None
   \<and> imageAsFigure (constructor (Some given)) =
         (case given_imageAsFigure given of None \<Rightarrow> Some True | Some v \<Rightarrow> v)
   \<and> emptyParagraphToNonBreakingSpace (constructor (Some given)) =
         (case given_emptyParagraphToNonBreakingSpace given of None \<Rightarrow> Some False | Some v \<Rightarrow> v)
   \<and> addImageSizeToAltText (constructor (Some given)) =
         (case given_addImageSizeToAltText given of None \<Rightarrow> None | Some v \<Rightarrow> v)
   \<and> getImageSize (constructor (Some given)) =
         (case given_getImageSize given of None \<Rightarrow> None | Some v \<Rightarrow> v)"
  by (simp add: getInstance_def constructor_def)

theorem getInstance_singleton_witness:
  "imageAsFigure (fst (getInstance
       (Some \<lparr>given_imageAsFigure = Some (Some True), given_addImageSizeToAltText = None,
              given_getImageSize = None, given_emptyParagraphToNonBreakingSpace = None\<rparr>)
       (snd (getInstance
          (Some \<lparr>given_imageAsFigure = Some (Some False), given_addImageSizeToAltText = None,
                 given_getImageSize = None, given_emptyParagraphToNonBreakingSpace = None\<rparr>)
          None)))) = Some False
   \<and> imageAsFigure (constructor
         (Some \<lparr>given_imageAsFigure = Some None, given_addImageSizeToAltText = None,
                given_getImageSize = None, given_emptyParagraphToNonBreakingSpace = None\<rparr>)) = None"
  using getInstance_singleton
    [of "Some \<lparr>given_imageAsFigure = Some (Some False), given_addImageSizeToAltText = None,
                given_getImageSize = None, given_emptyParagraphToNonBreakingSpace = None\<rparr>"
        "Some \<lparr>given_imageAsFigure = Some (Some True), given_addImageSizeToAltText = None,
                given_getImageSize = None, given_emptyParagraphToNonBreakingSpace = None\<rparr>"
        _
        "\<lparr>given_imageAsFigure = Some None, given_addImageSizeToAltText = None,
          given_getImageSize = None, given_emptyParagraphToNonBreakingSpace = None\<rparr>"]
  by (simp add: constructor_def)

section \<open>The walker: results and lookups of each function\<close>

lemma fst_parse:
  "fst (parse pev this blocks depth) =
     (case fst (parse_loop pev this depth blocks []) of
        Inl e \<Rightarrow> Inl e
      | Inr markdown \<Rightarrow> Inr (markdown @ EOL_MD))"
  by (simp add: split_beta split: sum.splits)

lemma snd_parse:
  "snd (parse pev this blocks depth) = snd (parse_loop pev this depth blocks [])"
  by (simp add: split_beta split: sum.splits)

lemma fst_parse_loop_Cons:
  "fst (parse_loop pev this depth (b # rest) markdown) =
     (case fst (parse_childBlock pev this depth b) of
        Inl e \<Rightarrow> Inl e
      | Inr appended \<Rightarrow> fst (parse_loop pev this depth rest (markdown @ appended)))"
  by (simp add: split_beta split: sum.splits)

lemma snd_parse_loop_Cons:
  "snd (parse_loop pev this depth (b # rest) markdown) =
     (case fst (parse_childBlock pev this depth b) of
        Inl e \<Rightarrow> snd (parse_childBlock pev this depth b)
      | Inr appended \<Rightarrow>
          snd (parse_childBlock pev this depth b)
          @ snd (parse_loop pev this depth rest (markdown @ appended)))"
  by (simp add: split_beta split: sum.splits)

lemma fst_parse_childBlock_children:
  "fst (parse_childBlock pev this depth (Block True (Some cs) payload)) =
     (case fst (parse pev this cs (depth + 2)) of
        Inl e \<Rightarrow> Inl e
      | Inr childBlockString \<Rightarrow>
          fst (dispatch pev this (repeat '' '' depth) payload childBlockString))"
  by (simp add: split_beta Let_def split: sum.splits)

lemma snd_parse_childBlock_children:
  "snd (parse_childBlock pev this depth (Block True (Some cs) payload)) =
     (case fst (parse pev this cs (depth + 2)) of
        Inl e \<Rightarrow> snd (parse pev this cs (depth + 2))
      | Inr childBlockString \<Rightarrow>
          snd (parse pev this cs (depth + 2))
          @ snd (dispatch pev this (repeat '' '' depth) payload childBlockString))"
  by (simp add: split_beta Let_def split: sum.splits)

lemma parse_childBlock_leaf:
  "\<not> has_children \<or> children = None \<Longrightarrow>
     parse_childBlock pev this depth (Block has_children children payload) =
       dispatch pev this (repeat '' '' depth) payload []"
  by (auto simp: split_beta Let_def)

declare parse.simps [simp del] parse_loop.simps(2) [simp del] parse_childBlock.simps [simp del]

lemma children_first_block_leaf:
  "\<not> has_children \<or> children = None \<Longrightarrow>
     children_first_block (Block has_children children payload) = image_url payload"
  by (cases has_children; cases children; simp)

lemma document_order_block_leaf:
  "\<not> has_children \<or> children = None \<Longrightarrow>
     document_order_block (Block has_children children payload) = image_url payload"
  by (cases has_children; cases children; simp)

lemma walked_block_leaf:
  "\<not> has_children \<or> children = None \<Longrightarrow>
     walked_block (Block has_children children payload) = [Block has_children children payload]"
  by (cases has_children; cases children; simp)

subsection \<open>The loop concatenates\<close>


lemma fst_parse_loop_append:
  "fst (parse_loop pev this depth (xs @ ys) markdown) =
     (case fst (parse_loop pev this depth xs markdown) of
        Inl e \<Rightarrow> Inl e
      | Inr m \<Rightarrow> fst (parse_loop pev this depth ys m))"
proof (induction xs arbitrary: markdown)
  case Nil
  then show ?case by simp
next
  case (Cons b xs)
  show ?case
    by (cases "fst (parse_childBlock pev this depth b)")
       (simp_all only: append_Cons fst_parse_loop_Cons sum.case Cons.IH)
qed

text \<open>An error in the body of the loop is the error of the whole render.\<close>

lemma parse_fails_at:
  assumes "fst (parse_loop pev this depth earlier []) = Inr m"
    and "fst (parse_childBlock pev this depth b) = Inl e"
  shows "fst (parse pev this (earlier @ b # later) depth) = Inl e"
  using assms by (simp only: fst_parse fst_parse_loop_append fst_parse_loop_Cons sum.case)

subsection \<open>The lookups issued\<close>

lemma parseImageBlock_calls:
  assumes "imageAsFigure this \<noteq> Some True" "addImageSizeToAltText this = Some True"
    "getImageSize this = Some lookup"
  shows "snd (parseImageBlock this f) = [url (parseFile f)]"
  using assms by (simp add: parseImageBlock_def Let_def split: sum.splits)

lemma dispatch_calls:
  assumes "imageAsFigure this \<noteq> Some True" "addImageSizeToAltText this = Some True"
    "getImageSize this = Some lookup"
  shows "snd (dispatch pev this pre payload cbs) = image_url payload"
proof (cases payload)
  case (ImageBlock f)
  with parseImageBlock_calls [OF assms, of f] show ?thesis
    by (simp add: dispatch_def image_url_def split_beta split: sum.splits)
qed (simp_all add: dispatch_def image_url_def split: sum.splits)

lemma calls_children_first:
  assumes "imageAsFigure this \<noteq> Some True" "addImageSizeToAltText this = Some True"
    "getImageSize this = Some lookup"
  shows "(\<exists>rest. children_first blocks = snd (parse pev this blocks depth) @ rest)
         \<and> (\<not> isl (fst (parse pev this blocks depth))
              \<longrightarrow> snd (parse pev this blocks depth) = children_first blocks)"
    and "(\<exists>rest. children_first blocks = snd (parse_loop pev this depth blocks markdown) @ rest)
         \<and> (\<not> isl (fst (parse_loop pev this depth blocks markdown))
              \<longrightarrow> snd (parse_loop pev this depth blocks markdown) = children_first blocks)"
    and "(\<exists>rest. children_first_block b = snd (parse_childBlock pev this depth b) @ rest)
         \<and> (\<not> isl (fst (parse_childBlock pev this depth b))
              \<longrightarrow> snd (parse_childBlock pev this depth b) = children_first_block b)"
  using assms
proof (induction pev this blocks depth and pev this depth blocks markdown and pev this depth b
       rule: parse_parse_loop_parse_childBlock.induct)
  case (1 pev this blocks depth)
  then show ?case by (simp add: fst_parse snd_parse split: sum.splits)
next
  case (2 pev this depth markdown)
  then show ?case by simp
next
  case (3 pev this depth childBlock rest markdown)
  show ?case
  proof (cases "fst (parse_childBlock pev this depth childBlock)")
    case (Inl e)
    with 3(1) [OF 3(3-5)] show ?thesis
      by (auto simp: fst_parse_loop_Cons snd_parse_loop_Cons)
  next
    case (Inr appended)
    with 3(1) [OF 3(3-5)] 3(2) [OF prod.collapse Inr 3(3-5)]
    show ?thesis by (auto simp: fst_parse_loop_Cons snd_parse_loop_Cons)
  qed
next
  case (4 pev this depth has_children children payload)
  note d = dispatch_calls [OF 4(2-4), of pev]
  show ?case
  proof (cases "\<not> has_children \<or> children = None")
    case True
    then show ?thesis
      by (simp add: parse_childBlock_leaf children_first_block_leaf d)
  next
    case False
    then obtain cs where eq: "has_children" "children = Some cs" by auto
    note ih = 4(1) [OF refl eq 4(2-4)]
    show ?thesis
    proof (cases "fst (parse pev this cs (depth + 2))")
      case (Inl e)
      with ih eq show ?thesis
        by (auto simp: fst_parse_childBlock_children snd_parse_childBlock_children)
    next
      case (Inr s)
      with ih eq show ?thesis
        by (auto simp: fst_parse_childBlock_children snd_parse_childBlock_children d)
    qed
  qed
qed

lemma leaves_children_first:
  "images_are_leaves blocks \<Longrightarrow> children_first blocks = document_order blocks"
  "images_are_leaves_block b \<Longrightarrow> children_first_block b = document_order_block b"
  by (induction blocks and b rule: images_are_leaves_images_are_leaves_block.induct) auto

subsection \<open>A code block without rich text\<close>

lemma parseCodeBlock_Nil: "parseCodeBlock pev language [] = Inl TypeError"
  by (cases language) (simp_all add: parseCodeBlock_def)

lemma walked_empty_code_fails:
  "Block hc ch (CodeBlock language []) \<in> set (walked blocks)
     \<Longrightarrow> isl (fst (parse pev this blocks depth))"
  "Block hc ch (CodeBlock language []) \<in> set (walked blocks)
     \<Longrightarrow> isl (fst (parse_loop pev this depth blocks markdown))"
  "Block hc ch (CodeBlock language []) \<in> set (walked_block b)
     \<Longrightarrow> isl (fst (parse_childBlock pev this depth b))"
proof (induction pev this blocks depth and pev this depth blocks markdown and pev this depth b
       rule: parse_parse_loop_parse_childBlock.induct)
  case (1 pev this blocks depth)
  then show ?case by (auto simp: fst_parse split: sum.splits)
next
  case (2 pev this depth markdown)
  then show ?case by simp
next
  case (3 pev this depth childBlock rest markdown)
  show ?case
  proof (cases "fst (parse_childBlock pev this depth childBlock)")
    case (Inl e)
    then show ?thesis by (simp add: fst_parse_loop_Cons)
  next
    case (Inr appended)
    with 3(1) have "Block hc ch (CodeBlock language []) \<notin> set (walked_block childBlock)"
      by auto
    with 3(3) have "Block hc ch (CodeBlock language []) \<in> set (walked rest)" by simp
    from 3(2) [OF prod.collapse Inr this] Inr show ?thesis
      by (simp add: fst_parse_loop_Cons)
  qed
next
  case (4 pev this depth has_children children payload)
  show ?case
  proof (cases "\<not> has_children \<or> children = None")
    case True
    with 4(2) have "payload = CodeBlock language []"
      by (simp add: walked_block_leaf)
    with True show ?thesis
      by (simp add: parse_childBlock_leaf dispatch_def parseCodeBlock_Nil)
  next
    case False
    then obtain cs where eq: "has_children" "children = Some cs" by auto
    show ?thesis
    proof (cases "fst (parse pev this cs (depth + 2))")
      case (Inl e)
      with eq show ?thesis by (simp add: fst_parse_childBlock_children)
    next
      case (Inr s)
      with 4(1) [OF refl eq] have "Block hc ch (CodeBlock language []) \<notin> set (walked cs)"
        by auto
      with 4(2) eq have "payload = CodeBlock language []" by auto
      with eq Inr show ?thesis
        by (simp add: fst_parse_childBlock_children dispatch_def parseCodeBlock_Nil)
    qed
  qed
qed

text \<open>
  C4, as the code has it.  With the size-in-caption option active, the URLs
  passed to \<^verbatim>\<open>getImageSize\<close>, one call at a time, are the image URLs of the
  document in the order that puts the images below a block before the block
  itself: all of them when the render succeeds, and a beginning of that
  sequence when it fails.  This is the document order whenever no image block
  has an image below it.
\<close>

theorem lookups_children_first:
  assumes "imageAsFigure this \<noteq> Some True" and "addImageSizeToAltText this = Some True"
    and "getImageSize this = Some lookup"
  shows "(\<exists>rest. children_first blocks = snd (parse pev this blocks depth) @ rest)
         \<and> (fst (parse pev this blocks depth) = Inr markdown
              \<longrightarrow> snd (parse pev this blocks depth) = children_first blocks)
         \<and> (images_are_leaves blocks \<longrightarrow> children_first blocks = document_order blocks)"
  using calls_children_first(1) [OF assms, of blocks pev depth] leaves_children_first(1) [of blocks]
  by auto

theorem lookups_children_first_witness:
  "snd (parse no_video (size_in_alt (Some size_10x20))
          [Block True (Some [Block False None (ImageBlock (FileWithCaption ''a'' None))])
             (ToggleBlock []),
           Block False None (ImageBlock (ExternalFileWithCaption ''b'' None))] 0)
     = [''a'', ''b'']
   \<and> document_order
          [Block True (Some [Block False None (ImageBlock (FileWithCaption ''a'' None))])
             (ToggleBlock []),
           Block False None (ImageBlock (ExternalFileWithCaption ''b'' None))]
     = [''a'', ''b'']"
proof -
  let ?doc = "[Block True (Some [Block False None (ImageBlock (FileWithCaption ''a'' None))])
                 (ToggleBlock []),
               Block False None (ImageBlock (ExternalFileWithCaption ''b'' None))]"
  have flags: "imageAsFigure (size_in_alt (Some size_10x20)) \<noteq> Some True"
    "addImageSizeToAltText (size_in_alt (Some size_10x20)) = Some True"
    "getImageSize (size_in_alt (Some size_10x20)) = Some size_10x20"
    by (simp_all add: size_in_alt_def)
  have ok: "fst (parse no_video (size_in_alt (Some size_10x20)) ?doc 0)
              = Inr ''<details><summary></summary>  ![a|10x20](a)\<newline>\<newline></details>![b|10x20](b)\<newline>\<newline>''"
    by code_simp
  have leaves: "images_are_leaves ?doc"
    by (simp add: image_url_def)
  have order: "document_order ?doc = [''a'', ''b'']"
    by (simp add: image_url_def parseFile_def Let_def)
  note inst = lookups_children_first [OF flags, where blocks = ?doc and pev = no_video
      and depth = 0
      and markdown = "''<details><summary></summary>  ![a|10x20](a)\<newline>\<newline></details>![b|10x20](b)\<newline>\<newline>''"]
  from inst ok have calls: "snd (parse no_video (size_in_alt (Some size_10x20)) ?doc 0)
                           = children_first ?doc"
    by blast
  from inst leaves have same: "children_first ?doc = document_order ?doc"
    by blast
  show ?thesis
    unfolding calls same order by (rule conjI) (rule refl)+
qed

text \<open>
  C4 as the specification words it: an image block with an image below it.
  The lookup for the image below is issued first, against the document order.
\<close>

theorem lookups_document_order_counterexample:
  "snd (parse no_video (size_in_alt (Some size_10x20))
          [Block True (Some [Block False None (ImageBlock (FileWithCaption ''b'' None))])
             (ImageBlock (ExternalFileWithCaption ''a'' None))] 0)
   \<noteq> document_order
          [Block True (Some [Block False None (ImageBlock (FileWithCaption ''b'' None))])
             (ImageBlock (ExternalFileWithCaption ''a'' None))]"
  by code_simp

lemma lookups_nested_image:
  "snd (parse no_video (size_in_alt (Some size_10x20))
          [Block True (Some [Block False None (ImageBlock (FileWithCaption ''b'' None))])
             (ImageBlock (ExternalFileWithCaption ''a'' None))] 0) = [''b'', ''a'']"
  "document_order
          [Block True (Some [Block False None (ImageBlock (FileWithCaption ''b'' None))])
             (ImageBlock (ExternalFileWithCaption ''a'' None))] = [''a'', ''b'']"
  by code_simp+

section \<open>The render of a sequence of blocks\<close>








section \<open>Code blocks\<close>

lemma of_char_toLowerCase_char:
  "(of_char (toLowerCase_char c) :: nat) =
     (if 65 \<le> (of_char c :: nat) \<and> (of_char c :: nat) \<le> 90 then of_char c + 32 else of_char c)"
proof (cases "65 \<le> (of_char c :: nat) \<and> (of_char c :: nat) \<le> 90")
  case True
  then have "(of_char c :: nat) + 32 < 256" by simp
  then have "(of_char (char_of ((of_char c :: nat) + 32)) :: nat) = of_char c + 32"
    by simp
  with True show ?thesis by (simp add: toLowerCase_char_def Let_def)
next
  case False
  then show ?thesis by (auto simp: toLowerCase_char_def Let_def)
qed

lemma toLowerCase_ASCII:
  "list_all (\<lambda>c. (of_char c :: nat) < 128) s \<Longrightarrow> toLowerCase beyond s = map toLowerCase_char s"
  by (simp add: toLowerCase_def)

text \<open>
  C5, as the code has it.  For a code block with a language tag whose first
  rich-text run is a text run, \<^verbatim>\<open>parseCodeBlock\<close> returns a fence of three
  backquotes followed by the language tag in lower case (nothing when the tag
  is the empty string), a line break, the content of the first run, a line
  break, the closing fence and a line break.  The runs after the first do not
  matter.  Lower case: in a tag of ASCII characters every letter from \<^verbatim>\<open>A\<close> to
  \<^verbatim>\<open>Z\<close> is replaced by its small letter (the character 32 places on) and
  nothing else changes; a tag with other characters is lowercased as
  JavaScript does it by the tables of Unicode.
\<close>

theorem parseCodeBlock_fence:
  "parseCodeBlock pev (Some language) (RichTextText a first # others) =
     Inr (backquote @ backquote @ backquote
          @ toLowerCase (toLowerCase_beyond_ASCII pev) language @ EOL_MD
          @ content first @ EOL_MD
          @ backquote @ backquote @ backquote @ EOL_MD)
   \<and> parseCodeBlock pev (Some language) (RichTextText a first # others)
       = parseCodeBlock pev (Some language) [RichTextText a first]
   \<and> (list_all (\<lambda>c. (of_char c :: nat) < 128) language \<longrightarrow>
        length (toLowerCase beyond language) = length language
        \<and> (\<forall>i<length language.
              (of_char (toLowerCase beyond language ! i) :: nat) =
                (if 65 \<le> (of_char (language ! i) :: nat) \<and> (of_char (language ! i) :: nat) \<le> 90
                 then of_char (language ! i) + 32 else of_char (language ! i))))
   \<and> (\<not> list_all (\<lambda>c. (of_char c :: nat) < 128) language \<longrightarrow>
        toLowerCase beyond language = beyond language)
   \<and> toLowerCase beyond [] = []
   \<and> toLowerCase beyond ''JavaScript'' = ''javascript''
   \<and> fst (dispatch pev this pre (CodeBlock (Some language) (RichTextText a first # others))
             childBlockString) =
       Inr (pre @ backquote @ backquote @ backquote
            @ toLowerCase (toLowerCase_beyond_ASCII pev) language @ EOL_MD
            @ content first @ EOL_MD
            @ backquote @ backquote @ backquote @ EOL_MD @ childBlockString)"
proof (intro conjI impI allI)
  show "toLowerCase beyond ''JavaScript'' = ''javascript''"
    by code_simp
next
  fix i
  assume "list_all (\<lambda>c. (of_char c :: nat) < 128) language" and "i < length language"
  then show "(of_char (toLowerCase beyond language ! i) :: nat) =
               (if 65 \<le> (of_char (language ! i) :: nat) \<and> (of_char (language ! i) :: nat) \<le> 90
                then of_char (language ! i) + 32 else of_char (language ! i))"
    by (simp only: toLowerCase_ASCII nth_map of_char_toLowerCase_char)
qed (simp_all add: parseCodeBlock_def toLowerCase_def dispatch_def)

theorem parseCodeBlock_fence_witness:
  "parseCodeBlock no_video (Some ''JavaScript'') [plain ''let x = 1;'', plain ''dropped'']
   = Inr (backquote @ backquote @ backquote @ ''javascript\<newline>let x = 1;\<newline>''
          @ backquote @ backquote @ backquote @ ''\<newline>'')"
proof -
  have ascii: "list_all (\<lambda>c. (of_char c :: nat) < 128) ''JavaScript''"
    by simp
  show ?thesis
    using ascii parseCodeBlock_fence [of no_video "''JavaScript''" "[]"
        "\<lparr>content = ''let x = 1;'', link = None\<rparr>" "[plain ''dropped'']"
        "toLowerCase_beyond_ASCII no_video"]
    by (simp add: plain_def EOL_MD_def)
qed

text \<open>
  C5 as the specification words it, at a code block without a language tag
  and at one whose first run is an equation: neither gives a fenced block.
\<close>

theorem parseCodeBlock_fence_counterexample:
  "parseCodeBlock no_video None [plain ''let x = 1;''] = Inl TypeError
   \<and> parseCodeBlock no_video (Some ''javascript'') [RichTextEquation [] ''x'', plain ''y'']
       = Inl TypeError"
  by code_simp

text \<open>
  C9.  \<^verbatim>\<open>parseCodeBlock\<close> reads the first run of the rich text without a test:
  on a code block without runs it fails with a \<^verbatim>\<open>TypeError\<close>, so it returns a
  string only when there is a run (exactly when there is a language tag and
  the first run is a text run), and the render of every document in which the
  walker comes to a code block without runs fails.
\<close>

theorem parseCodeBlock_empty_fails:
  "parseCodeBlock pev language [] = Inl TypeError
   \<and> ((\<exists>s. parseCodeBlock pev language rich_text = Inr s) \<longrightarrow> rich_text \<noteq> [])
   \<and> ((\<exists>s. parseCodeBlock pev language rich_text = Inr s)
        \<longleftrightarrow> (\<exists>tag a first others.
               language = Some tag \<and> rich_text = RichTextText a first # others))
   \<and> (Block has_children children (CodeBlock language []) \<in> set (walked blocks)
        \<longrightarrow> (\<exists>e. fst (parse pev this blocks depth) = Inl e))"
proof (intro conjI impI)
  show "parseCodeBlock pev language [] = Inl TypeError"
    by (rule parseCodeBlock_Nil)
next
  assume "\<exists>s. parseCodeBlock pev language rich_text = Inr s"
  then show "rich_text \<noteq> []"
    by (auto simp: parseCodeBlock_Nil)
next
  show "(\<exists>s. parseCodeBlock pev language rich_text = Inr s)
          \<longleftrightarrow> (\<exists>tag a first others.
                 language = Some tag \<and> rich_text = RichTextText a first # others)"
    by (auto simp: parseCodeBlock_def split: option.splits list.splits RichText.splits)
next
  assume "Block has_children children (CodeBlock language []) \<in> set (walked blocks)"
  from walked_empty_code_fails(1) [OF this, of pev this depth]
  show "\<exists>e. fst (parse pev this blocks depth) = Inl e"
    by (cases "fst (parse pev this blocks depth)") simp_all
qed

theorem parseCodeBlock_empty_fails_witness:
  "parseCodeBlock no_video (Some ''javascript'') [] = Inl TypeError
   \<and> (\<exists>s. parseCodeBlock no_video (Some ''javascript'') [plain ''x''] = Inr s)
   \<and> (\<exists>e. fst (parse no_video (constructor None)
                 [Block False None DividerBlock,
                  Block True (Some [Block False None (CodeBlock (Some ''javascript'') [])])
                    (ToggleBlock [plain ''t''])] 0) = Inl e)"
proof -
  have walked: "Block False None (CodeBlock (Some ''javascript'') [])
                  \<in> set (walked [Block False None DividerBlock,
                                  Block True
                                    (Some [Block False None (CodeBlock (Some ''javascript'') [])])
                                    (ToggleBlock [plain ''t''])])"
    by simp
  have run: "\<exists>tag a first others.
               Some ''javascript'' = Some tag \<and> [plain ''x''] = RichTextText a first # others"
    by (simp add: plain_def)
  from parseCodeBlock_empty_fails [of no_video "Some ''javascript''" "[plain ''x'']"
      False None "[Block False None DividerBlock,
                   Block True (Some [Block False None (CodeBlock (Some ''javascript'') [])])
                     (ToggleBlock [plain ''t''])]" "constructor None" 0]
    walked run
  show ?thesis by blast
qed

section \<open>Image blocks\<close>

lemma image_errors_differ: "ConfigurationError \<noteq> ValidationError"
  by (simp add: ConfigurationError_def ValidationError_def)

lemma fst_dispatch_image:
  "fst (dispatch pev this pre (ImageBlock f) childBlockString) =
     (case fst (parseImageBlock this f) of
        Inl e \<Rightarrow> Inl e
      | Inr s \<Rightarrow> Inr (pre @ s @ childBlockString))"
  by (simp add: dispatch_def split_beta split: sum.splits)

lemma number_falsy_iff:
  "number_falsy n \<longleftrightarrow> n = None \<or> n = Some NaN \<or> n = Some (Uint32 0)"
  by (cases n rule: number_falsy.cases) simp_all

subsection \<open>The first error on the way of the walker\<close>

text \<open>Whether the renderer of a block throws does not depend on the prefix or the children.\<close>

lemma dispatch_error:
  "(fst (dispatch pev this pre payload childBlockString) = Inl e)
     = (fst (dispatch pev this [] payload []) = Inl e)"
  "isl (fst (dispatch pev this pre payload childBlockString))
     = isl (fst (dispatch pev this [] payload []))"
  by (cases payload; simp add: dispatch_def split_beta split: sum.splits)+

lemma dispatch_block_error:
  "block_error pev this (Block has_children children payload) = Some e
     \<Longrightarrow> fst (dispatch pev this pre payload childBlockString) = Inl e"
  "block_error pev this (Block has_children children payload) = None
     \<Longrightarrow> \<not> isl (fst (dispatch pev this pre payload childBlockString))"
proof -
  assume "block_error pev this (Block has_children children payload) = Some e"
  then have "fst (dispatch pev this [] payload []) = Inl e"
    by (simp add: block_error_def split: sum.splits)
  with dispatch_error(1) [of pev this pre payload childBlockString e]
  show "fst (dispatch pev this pre payload childBlockString) = Inl e"
    by blast
next
  assume "block_error pev this (Block has_children children payload) = None"
  then have "\<not> isl (fst (dispatch pev this [] payload []))"
    by (simp add: block_error_def split: sum.splits)
  with dispatch_error(2) [of pev this pre payload childBlockString]
  show "\<not> isl (fst (dispatch pev this pre payload childBlockString))"
    by blast
qed

lemma map_filter_append:
  "List.map_filter f (xs @ ys) = List.map_filter f xs @ List.map_filter f ys"
  by (simp add: List.map_filter_def)

lemma walk_errors_Cons:
  "walk_errors pev this (b # bs) =
     List.map_filter (block_error pev this) (walked_block b) @ walk_errors pev this bs"
  by (simp add: walk_errors_def map_filter_append)

text \<open>
  A render succeeds when no block on the way of the walker throws, and it
  fails with the error of the first block on the way that does.
\<close>

lemma parse_walk_errors:
  "(walk_errors pev this blocks = [] \<longrightarrow> \<not> isl (fst (parse pev this blocks depth)))
   \<and> (\<forall>e es. walk_errors pev this blocks = e # es \<longrightarrow> fst (parse pev this blocks depth) = Inl e)"
  "(walk_errors pev this blocks = [] \<longrightarrow> \<not> isl (fst (parse_loop pev this depth blocks markdown)))
   \<and> (\<forall>e es. walk_errors pev this blocks = e # es
        \<longrightarrow> fst (parse_loop pev this depth blocks markdown) = Inl e)"
  "(List.map_filter (block_error pev this) (walked_block b) = []
      \<longrightarrow> \<not> isl (fst (parse_childBlock pev this depth b)))
   \<and> (\<forall>e es. List.map_filter (block_error pev this) (walked_block b) = e # es
        \<longrightarrow> fst (parse_childBlock pev this depth b) = Inl e)"
proof (induction pev this blocks depth and pev this depth blocks markdown and pev this depth b
       rule: parse_parse_loop_parse_childBlock.induct)
  case (1 pev this blocks depth)
  then show ?case by (auto simp: fst_parse split: sum.splits)
next
  case (2 pev this depth markdown)
  then show ?case by (simp add: walk_errors_def List.map_filter_def)
next
  case (3 pev this depth childBlock rest markdown)
  show ?case
  proof (cases "fst (parse_childBlock pev this depth childBlock)")
    case (Inl e)
    with 3(1) obtain es
      where "List.map_filter (block_error pev this) (walked_block childBlock) = e # es"
      by (cases "List.map_filter (block_error pev this) (walked_block childBlock)") auto
    with Inl show ?thesis
      by (simp add: fst_parse_loop_Cons walk_errors_Cons)
  next
    case (Inr appended)
    with 3(1) have "List.map_filter (block_error pev this) (walked_block childBlock) = []"
      by (cases "List.map_filter (block_error pev this) (walked_block childBlock)") auto
    with Inr 3(2) [OF prod.collapse Inr, of ] show ?thesis
      by (simp add: fst_parse_loop_Cons walk_errors_Cons)
  qed
next
  case (4 pev this depth has_children children payload)
  let ?b = "Block has_children children payload"
  have own: "List.map_filter (block_error pev this) [?b] =
               (case block_error pev this ?b of None \<Rightarrow> [] | Some e \<Rightarrow> [e])"
    by (simp add: List.map_filter_def split: option.splits)
  show ?case
  proof (cases "\<not> has_children \<or> children = None")
    case True
    show ?thesis
    proof (cases "block_error pev this ?b")
      case None
      with True own dispatch_block_error(2) [OF None] show ?thesis
        by (simp add: walked_block_leaf parse_childBlock_leaf)
    next
      case (Some e)
      with True own dispatch_block_error(1) [OF Some] show ?thesis
        by (simp add: walked_block_leaf parse_childBlock_leaf)
    qed
  next
    case False
    then obtain cs where eq: "has_children" "children = Some cs" by auto
    note ih = 4(1) [OF refl eq]
    have errors: "List.map_filter (block_error pev this) (walked_block ?b) =
                    walk_errors pev this cs @ List.map_filter (block_error pev this) [?b]"
      using eq by (simp add: walk_errors_def map_filter_append)
    show ?thesis
    proof (cases "fst (parse pev this cs (depth + 2))")
      case (Inl e)
      with ih obtain es where "walk_errors pev this cs = e # es"
        by (cases "walk_errors pev this cs") auto
      with Inl eq errors show ?thesis
        by (simp add: fst_parse_childBlock_children)
    next
      case (Inr s)
      with ih have none: "walk_errors pev this cs = []"
        by (cases "walk_errors pev this cs") auto
      show ?thesis
      proof (cases "block_error pev this ?b")
        case None
        with none eq errors own Inr dispatch_block_error(2) [OF None] show ?thesis
          by (simp add: fst_parse_childBlock_children)
      next
        case (Some e)
        with none eq errors own Inr dispatch_block_error(1) [OF Some] show ?thesis
          by (simp add: fst_parse_childBlock_children)
      qed
    qed
  qed
qed

lemma parse_first_error:
  assumes "walked blocks = earlier @ b # later"
    and "\<forall>x\<in>set earlier. block_error pev this x = None"
    and "block_error pev this b = Some e"
  shows "fst (parse pev this blocks depth) = Inl e"
proof -
  from assms(2) have "List.map_filter (block_error pev this) earlier = []"
    by (induction earlier) (simp_all add: List.map_filter_def)
  with assms(1,3)
  have "walk_errors pev this blocks = e # List.map_filter (block_error pev this) later"
    by (simp add: walk_errors_def map_filter_append List.map_filter_def)
  with parse_walk_errors(1) [of pev this blocks depth] show ?thesis by blast
qed

lemma block_error_image:
  "fst (parseImageBlock this f) = Inl e
     \<Longrightarrow> block_error pev this (Block has_children children (ImageBlock f)) = Some e"
  by (simp add: block_error_def fst_dispatch_image)

text \<open>
  C3, as the code has it.  An image block rendered with \<^verbatim>\<open>imageAsFigure\<close> falsy
  and \<^verbatim>\<open>addImageSizeToAltText\<close> true: without a lookup function
  \<^verbatim>\<open>parseImageBlock\<close> fails with the configuration error and no lookup is
  made; when the lookup resolves with a width or height that is missing,
  zero or \<^verbatim>\<open>NaN\<close> it fails with the validation error; when it resolves with
  both and neither is zero or \<^verbatim>\<open>NaN\<close>, the block renders as the caption, a bar,
  the width, \<^verbatim>\<open>x\<close>, the height, and the URL, followed by a line break, the two
  numbers as JavaScript prints them (an integer from 0 to \<^verbatim>\<open>2^32 - 1\<close> as its
  decimal digits).  An error of \<^verbatim>\<open>parseImageBlock\<close> is the error of the render
  of the whole document, at whatever depth the image block is, when no block
  that the walker renders before it throws; and a failed render has no text.
\<close>

theorem parseImageBlock_size_in_alt_text:
  assumes "imageAsFigure this \<noteq> Some True" and "addImageSizeToAltText this = Some True"
  shows
    "(getImageSize this = None \<longrightarrow> parseImageBlock this f = (Inl ConfigurationError, []))
     \<and> (getImageSize this = Some lookup \<and> lookup (url (parseFile f)) = Inr dims
          \<and> (width dims = None \<or> width dims = Some (Uint32 0) \<or> width dims = Some NaN
               \<or> height dims = None \<or> height dims = Some (Uint32 0) \<or> height dims = Some NaN)
          \<longrightarrow> fst (parseImageBlock this f) = Inl ValidationError)
     \<and> (getImageSize this = Some lookup
          \<and> lookup (url (parseFile f)) = Inr \<lparr>width = Some w, height = Some h\<rparr>
          \<and> w \<noteq> Uint32 0 \<and> w \<noteq> NaN \<and> h \<noteq> Uint32 0 \<and> h \<noteq> NaN
          \<longrightarrow> fst (parseImageBlock this f) =
                Inr (''!['' @ caption (parseFile f) @ ''|'' @ number_text w @ ''x''
                     @ number_text h @ ''](''  @ url (parseFile f) @ '')'' @ EOL_MD))
     \<and> number_text NaN = ''NaN''
     \<and> number_text (Other s) = s
     \<and> (unat n < 10 \<longrightarrow> number_text (Uint32 n) = [''0123456789'' ! unat n])
     \<and> (10 \<le> unat n \<longrightarrow>
          number_text (Uint32 n) = number_text (Uint32 (n div 10)) @ [''0123456789'' ! (unat n mod 10)])
     \<and> number_text (Uint32 10) = ''10''
     \<and> number_text (Uint32 20) = ''20''
     \<and> (walked blocks = earlier @ Block has_children children (ImageBlock f) # later
          \<and> (\<forall>b\<in>set earlier. block_error pev this b = None)
          \<and> fst (parseImageBlock this f) = Inl e
          \<longrightarrow> fst (parse pev this blocks depth) = Inl e)"
proof (intro conjI impI)
  assume "getImageSize this = None"
  with assms show "parseImageBlock this f = (Inl ConfigurationError, [])"
    by (simp add: parseImageBlock_def Let_def)
next
  assume "getImageSize this = Some lookup \<and> lookup (url (parseFile f)) = Inr dims
          \<and> (width dims = None \<or> width dims = Some (Uint32 0) \<or> width dims = Some NaN
               \<or> height dims = None \<or> height dims = Some (Uint32 0) \<or> height dims = Some NaN)"
  with assms show "fst (parseImageBlock this f) = Inl ValidationError"
    by (auto simp: parseImageBlock_def Let_def number_falsy_iff)
next
  assume "getImageSize this = Some lookup
          \<and> lookup (url (parseFile f)) = Inr \<lparr>width = Some w, height = Some h\<rparr>
          \<and> w \<noteq> Uint32 0 \<and> w \<noteq> NaN \<and> h \<noteq> Uint32 0 \<and> h \<noteq> NaN"
  with assms show "fst (parseImageBlock this f) =
                     Inr (''!['' @ caption (parseFile f) @ ''|'' @ number_text w @ ''x''
                          @ number_text h @ ''](''  @ url (parseFile f) @ '')'' @ EOL_MD)"
    by (simp add: parseImageBlock_def Let_def number_falsy_iff)
next
  show "number_text NaN = ''NaN''" by simp
next
  show "number_text (Other s) = s" by simp
next
  assume "unat n < 10"
  then show "number_text (Uint32 n) = [''0123456789'' ! unat n]"
    by (simp add: digits.simps)
next
  assume "10 \<le> unat n"
  then show "number_text (Uint32 n)
               = number_text (Uint32 (n div 10)) @ [''0123456789'' ! (unat n mod 10)]"
    by (subst number_text.simps, subst digits.simps) (simp add: unat_div)
next
  show "number_text (Uint32 10) = ''10''" by code_simp
next
  show "number_text (Uint32 20) = ''20''" by code_simp
next
  assume a: "walked blocks = earlier @ Block has_children children (ImageBlock f) # later
             \<and> (\<forall>b\<in>set earlier. block_error pev this b = None)
             \<and> fst (parseImageBlock this f) = Inl e"
  then have "block_error pev this (Block has_children children (ImageBlock f)) = Some e"
    by (intro block_error_image) simp
  with a show "fst (parse pev this blocks depth) = Inl e"
    by (intro parse_first_error [of blocks earlier _ later]) simp_all
qed

theorem parseImageBlock_size_in_alt_text_witness:
  "parseImageBlock (size_in_alt None) (ExternalFileWithCaption ''u'' (Some [plain ''cap'']))
     = (Inl ConfigurationError, [])
   \<and> fst (parse no_video (size_in_alt None)
            [Block False None (ParagraphBlock [plain ''p'']),
             Block True
               (Some [Block False None
                        (ImageBlock (ExternalFileWithCaption ''u'' (Some [plain ''cap''])))])
               (ParagraphBlock [plain ''q''])] 0)
     = Inl ConfigurationError
   \<and> fst (parseImageBlock (size_in_alt (Some size_10x20))
            (ExternalFileWithCaption ''u'' (Some [plain ''cap''])))
     = Inr ''![cap|10x20](u)\<newline>''
   \<and> fst (parseImageBlock (size_in_alt (Some size_0x20))
            (ExternalFileWithCaption ''u'' (Some [plain ''cap''])))
     = Inl ValidationError"
proof -
  let ?f = "ExternalFileWithCaption ''u'' (Some [plain ''cap''])"
  let ?doc = "[Block False None (ParagraphBlock [plain ''p'']),
               Block True (Some [Block False None (ImageBlock ?f)])
                 (ParagraphBlock [plain ''q''])]"
  have flags: "imageAsFigure (size_in_alt lookup) \<noteq> Some True"
    "addImageSizeToAltText (size_in_alt lookup) = Some True" for lookup
    by (simp_all add: size_in_alt_def)
  have resolved_file: "url (parseFile ?f) = ''u''" "caption (parseFile ?f) = ''cap''"
    by code_simp+
  have way: "walked ?doc = [Block False None (ParagraphBlock [plain ''p''])]
                           @ Block False None (ImageBlock ?f)
                           # [Block True (Some [Block False None (ImageBlock ?f)])
                                (ParagraphBlock [plain ''q''])]"
    by simp
  have before: "\<forall>b\<in>set [Block False None (ParagraphBlock [plain ''p''])].
                  block_error no_video (size_in_alt None) b = None"
    by (simp add: block_error_def dispatch_def)
  have none: "parseImageBlock (size_in_alt None) ?f = (Inl ConfigurationError, [])"
    using parseImageBlock_size_in_alt_text [OF flags, of None ?f]
    by (simp add: size_in_alt_def)
  have document: "fst (parse no_video (size_in_alt None) ?doc 0) = Inl ConfigurationError"
    using parseImageBlock_size_in_alt_text [OF flags, where f = ?f and blocks = ?doc
        and earlier = "[Block False None (ParagraphBlock [plain ''p''])]"
        and has_children = False and children = None
        and later = "[Block True (Some [Block False None (ImageBlock ?f)])
                        (ParagraphBlock [plain ''q''])]"
        and pev = no_video and e = ConfigurationError and depth = 0 and lookup1 = None]
      none way before
    by simp
  have resolved: "fst (parseImageBlock (size_in_alt (Some size_10x20)) ?f)
                    = Inr ''![cap|10x20](u)\<newline>''"
    using parseImageBlock_size_in_alt_text [OF flags, where f = ?f and lookup = size_10x20
        and w = "Uint32 10" and h = "Uint32 20" and lookup1 = "Some size_10x20"]
    by (simp add: size_in_alt_def size_10x20_def resolved_file EOL_MD_def)
  have zero: "fst (parseImageBlock (size_in_alt (Some size_0x20)) ?f) = Inl ValidationError"
    using parseImageBlock_size_in_alt_text [OF flags, where f = ?f and lookup = size_0x20
        and dims = "\<lparr>width = Some (Uint32 0), height = Some (Uint32 20)\<rparr>"
        and lookup1 = "Some size_0x20"]
    by (simp add: size_in_alt_def size_0x20_def)
  from none document resolved zero show ?thesis by simp
qed

text \<open>
  C3 as the specification words it: a lookup that resolves with a width that
  is there and is not zero, but is \<^verbatim>\<open>NaN\<close>.  The block is not rendered with the
  size in its alt text, the render fails.
\<close>

theorem parseImageBlock_NaN_counterexample:
  "fst (parseImageBlock (size_in_alt (Some size_NaNx20))
          (ExternalFileWithCaption ''u'' (Some [plain ''cap''])))
     = Inl ValidationError
   \<and> fst (parseImageBlock (size_in_alt (Some size_NaNx20))
            (ExternalFileWithCaption ''u'' (Some [plain ''cap''])))
     \<noteq> Inr ''![cap|NaNx20](u)\<newline>''"
  by code_simp

section \<open>Toggle blocks\<close>

text \<open>
  C2 fails on the code.  The walker puts the render of the children into the
  text of \<^verbatim>\<open>parseToggleBlock\<close> with \<^verbatim>\<open>String.prototype.replace\<close>, which reads
  its second argument as a replacement pattern and replaces the first
  occurrence of the token.  A child paragraph with the text \<^verbatim>\<open>$$\<close> renders at
  depth 2 with both dollar signs, but in the toggle only one is left; and
  when the rich text of the toggle contains the token, the children land in
  the summary and the token stays in the output.
\<close>

theorem toggle_substitution_mangles:
  "fst (parse no_video (constructor None)
          [Block False None (ParagraphBlock [plain ''$$''])] 2)
     = Inr ''  \<newline>$$\<newline>\<newline>''
   \<and> fst (parse no_video (constructor None)
            [Block True (Some [Block False None (ParagraphBlock [plain ''$$''])])
               (ToggleBlock [plain ''t''])] 0)
     = Inr ''<details><summary>t</summary>  \<newline>$\<newline>\<newline></details>\<newline>''
   \<and> fst (parse no_video (constructor None)
            [Block True (Some [Block False None (ParagraphBlock [plain ''hi''])])
               (ToggleBlock [plain ''{{childBlock}}''])] 0)
     = Inr ''<details><summary>  \<newline>hi\<newline>\<newline></summary>{{childBlock}}</details>\<newline>''"
  by code_simp

text \<open>The example of the specification, where the substitution does what is meant.\<close>

lemma toggle_example:
  "fst (parse no_video (constructor None)
          [Block True (Some [Block False None (ParagraphBlock [plain ''hi''])])
             (ToggleBlock [plain ''t''])] 0)
     = Inr ''<details><summary>t</summary>  \<newline>hi\<newline>\<newline></details>\<newline>''"
  by code_simp


subsection \<open>When the substitution is the plain one\<close>

lemma getSubstitution_plain:
  "CHR ''$'' \<notin> set replacement \<Longrightarrow>
     getSubstitution matched preceding following replacement = replacement"
  by (induction matched preceding following replacement rule: getSubstitution.induct) auto

text \<open>
  A pattern that does not start a text does not start the text continued by
  one that begins with a character foreign to the pattern.
\<close>

lemma startsWith_append_foreign:
  assumes "\<not> startsWith x p" and "r \<notin> set p"
  shows "\<not> startsWith (x @ r # rest) p"
proof
  assume "startsWith (x @ r # rest) p"
  then have eq: "take (length p) x @ take (length p - length x) (r # rest) = p"
    by (simp add: startsWith_def)
  show False
  proof (cases "length p \<le> length x")
    case True
    with eq assms(1) show False by (simp add: startsWith_def)
  next
    case False
    then obtain m where "length p - length x = Suc m"
      by (cases "length p - length x") auto
    with eq have "take (length p) x @ r # take m rest = p" by simp
    then have "r \<in> set p" by (metis in_set_conv_decomp)
    with assms(2) show False by simp
  qed
qed

lemma indexOf_append_foreign:
  assumes "indexOf s p = None" and "r \<notin> set p"
  shows "indexOf (s @ r # rest) p = map_option (\<lambda>i. length s + i) (indexOf (r # rest) p)"
  using assms(1)
proof (induction s)
  case Nil
  then show ?case by (simp add: option.map_ident)
next
  case (Cons c s)
  from Cons.prems have miss: "\<not> startsWith (c # s) p" and rest: "indexOf s p = None"
    by (auto split: if_splits)
  from startsWith_append_foreign [OF miss assms(2)]
  have "\<not> startsWith (c # s @ r # rest) p" by simp
  with Cons.IH [OF rest] show ?case
    by (simp add: option.map_comp comp_def)
qed

lemma indexOf_toggle:
  assumes "indexOf summary ''{{childBlock}}'' = None"
  shows "indexOf (''<details><summary>'' @ summary @ ''</summary>{{childBlock}}</details>'')
           ''{{childBlock}}'' = Some (length (''<details><summary>'' @ summary @ ''</summary>''))"
proof -
  have tail: "indexOf (''</summary>{{childBlock}}</details>'') ''{{childBlock}}'' = Some 10"
    by code_simp
  have "indexOf (summary @ ''</summary>{{childBlock}}</details>'') ''{{childBlock}}''
          = Some (length summary + 10)"
    using indexOf_append_foreign [OF assms, of "CHR ''<''" "''/summary>{{childBlock}}</details>''"]
      tail by simp
  then show ?thesis
    by (simp add: startsWith_def)
qed

text \<open>
  What the specification says of a toggle block holds when the rendered rich
  text of the toggle does not contain the token and the rendered children
  contain no dollar sign.
\<close>

lemma toggle_substitution_plain:
  assumes "indexOf (parseRichTexts rich_text) ''{{childBlock}}'' = None"
    and "CHR ''$'' \<notin> set childBlockString"
  shows "dispatch pev this pre (ToggleBlock rich_text) childBlockString =
           (Inr (pre @ ''<details><summary>'' @ parseRichTexts rich_text @ ''</summary>''
                 @ childBlockString @ ''</details>''), [])"
  using indexOf_toggle [OF assms(1)] getSubstitution_plain [OF assms(2)]
  by (simp add: dispatch_def parseToggleBlock_def replace_def Let_def)


section \<open>The examples of the specification\<close>

lemma paragraph_examples:
  "parseParagraph (constructor None) [] = ''\<newline>\<newline>''"
  "parseParagraph
     (constructor (Some \<lparr>given_imageAsFigure = None, given_addImageSizeToAltText = None,
                          given_getImageSize = None,
                          given_emptyParagraphToNonBreakingSpace = Some (Some True)\<rparr>)) []
     = ''\<newline>&nbsp;\<newline>''"
  by code_simp+

lemma list_and_quote_examples:
  "parseBulletedListItems [plain ''a\<newline>b''] = ''* a\<newline>    b\<newline>''"
  "parseQuoteBlock [plain ''line1\<newline>line2''] = ''\<newline>> line1\<newline>> line2\<newline>''"
  by code_simp+

text \<open>The render of a sequence of runs is the renders of the runs, in their order.\<close>

lemma parseRichTexts_append:
  "parseRichTexts (xs @ ys) = parseRichTexts xs @ parseRichTexts ys"
proof -
  define f where "f = (\<lambda>parsedContent richText.
                 (case richText of
                    RichTextText a t \<Rightarrow> parsedContent @ parseText a t
                  | RichTextMention a mt p \<Rightarrow> parsedContent @ parseMention a mt p
                  | RichTextEquation a e \<Rightarrow> parsedContent @ parseEquation a e))"
  have f: "f acc z = acc @ f [] z" for acc z
    by (cases z) (simp_all add: f_def)
  have shift: "foldl f acc zs = acc @ foldl f [] zs" for acc zs
  proof (induction zs arbitrary: acc)
    case Nil
    show ?case by simp
  next
    case (Cons z zs)
    have "foldl f acc (z # zs) = foldl f (f acc z) zs" by simp
    also have "\<dots> = f acc z @ foldl f [] zs" by (rule Cons.IH)
    also have "\<dots> = acc @ (f [] z @ foldl f [] zs)" by (subst f) simp
    also have "f [] z @ foldl f [] zs = foldl f (f [] z) zs" by (rule Cons.IH [symmetric])
    finally show ?case by simp
  qed
  have "parseRichTexts (xs @ ys) = foldl f (foldl f [] xs) ys"
    by (simp add: parseRichTexts_def f_def)
  also have "\<dots> = foldl f [] xs @ foldl f [] ys" by (rule shift)
  finally show ?thesis by (simp add: parseRichTexts_def f_def)
qed


end
